theory Spec2Isabelle
  imports Complex_Main "HOL-Library.AList" "HOL-Library.Multiset"
begin

section \<open>CSES threat detection: a shallow embedding of demo.py\<close>

text \<open>
  Conventions of the embedding.
  \<^item> Python \<open>float\<close> values (timestamps, speeds, scores, probabilities) are modelled as
    exact \<open>real\<close> numbers; \<open>n ** 0.5\<close> on a non-negative integer is \<open>sqrt\<close>.
    Rounding is not modelled.
  \<^item> Python \<open>int\<close> values (object ids, pixel coordinates) are \<open>int\<close>; \<open>//\<close> is \<open>div\<close>.
  \<^item> A \<open>dict\<close> that the program iterates over is an association list in insertion order,
    written with \<open>AList.update\<close> (an existing key keeps its place, a new key goes to the
    end); a \<open>dict\<close> that is only indexed is a map.
  \<^item> A raised exception is a value of \<open>py_error\<close>; a method that mutates \<open>self\<close> and may
    raise returns the state reached together with the outcome.
\<close>

datatype py_error = KeyError | IndexError | ZeroDivisionError | UnboundLocalError

subsection \<open>Configuration\<close>

definition PRUNE_AGE_S :: real where "PRUNE_AGE_S = 5.0"
definition PIXELS_TO_METERS :: real where "PIXELS_TO_METERS = 0.1"
definition STOP_SPEED_THRESHOLD_MPS :: real where "STOP_SPEED_THRESHOLD_MPS = 0.5"
definition ANOMALY_THRESHOLD :: real where "ANOMALY_THRESHOLD = 0.7"
definition ALERT_PROBABILITY_THRESHOLD :: real where "ALERT_PROBABILITY_THRESHOLD = 0.75"

subsection \<open>Data structures\<close>

type_synonym point = "int \<times> int"

record sample =
  pos :: point
  time :: real

record TrackedObject =
  obj_id :: int
  label :: string
  history :: "sample list"
  last_updated :: "real option"

record Detection =
  det_obj_id :: "int option"
  det_label :: "string option"
  det_bbox :: "(int \<times> int \<times> int \<times> int) option"

record FrameData =
  timestamp :: real
  detections :: "Detection list"

type_synonym tracks = "(int \<times> TrackedObject) list"

text \<open>\<open>d[k]\<close> on a dict raises KeyError for a missing key.\<close>

definition dict_index :: "('k \<times> 'v) list \<Rightarrow> 'k \<Rightarrow> py_error + 'v" where
  "dict_index d k = (case map_of d k of None \<Rightarrow> Inl KeyError | Some v \<Rightarrow> Inr v)"

text \<open>Python true division \<open>a / b\<close> raises ZeroDivisionError for a zero divisor.\<close>

definition py_truediv :: "real \<Rightarrow> real \<Rightarrow> py_error + real" where
  "py_truediv a b = (if b = 0 then Inl ZeroDivisionError else Inr (a / b))"

subsection \<open>Layer 2: BaselineModel\<close>

record BaselineModel =
  normal_road_polygon :: "point list"
  normal_stopping_polygon :: "point list"

definition BaselineModel_init :: BaselineModel where
  "BaselineModel_init =
     \<lparr> normal_road_polygon = [(0, 220), (1000, 220), (1000, 300), (0, 300)],
       normal_stopping_polygon = [(800, 220), (900, 220), (900, 300), (800, 300)] \<rparr>"

text \<open>
  One pass of the body of \<open>for i in range(n + 1)\<close> in \<open>_is_point_in_polygon\<close>. The loop
  carries \<open>(p1x, p1y)\<close>, \<open>inside\<close> and the local \<open>xinters\<close>, which is unbound until its
  first assignment (\<open>None\<close> here); reading it unbound raises UnboundLocalError. The
  division is Python's true division.
\<close>

definition pip_body ::
  "point \<Rightarrow> point \<Rightarrow> point \<times> bool \<times> real option \<Rightarrow> py_error + (point \<times> bool \<times> real option)" where
  "pip_body pt p2 st =
     (case (pt, p2, st) of ((x, y), (p2x, p2y), ((p1x, p1y), inside, xinters)) \<Rightarrow>
        if y > min p1y p2y \<and> y \<le> max p1y p2y \<and> x \<le> max p1x p2x then
          (case (if p1y \<noteq> p2y
                 then (case py_truediv (real_of_int ((y - p1y) * (p2x - p1x))) (real_of_int (p2y - p1y)) of
                         Inl e \<Rightarrow> Inl e
                       | Inr q \<Rightarrow> Inr (Some (q + real_of_int p1x)))
                 else Inr xinters) of
             Inl e \<Rightarrow> Inl e
           | Inr xinters' \<Rightarrow>
               if p1x = p2x then Inr ((p2x, p2y), \<not> inside, xinters')
               else (case xinters' of
                       None \<Rightarrow> Inl UnboundLocalError
                     | Some xi \<Rightarrow>
                         if real_of_int x \<le> xi then Inr ((p2x, p2y), \<not> inside, xinters')
                         else Inr ((p2x, p2y), inside, xinters')))
        else Inr ((p2x, p2y), inside, xinters))"

fun pip_loop ::
  "point \<Rightarrow> point list \<Rightarrow> nat list \<Rightarrow> point \<times> bool \<times> real option \<Rightarrow> py_error + bool" where
  "pip_loop pt polygon [] st = Inr (fst (snd st))"
| "pip_loop pt polygon (i # is) st =
     (case pip_body pt (polygon ! (i mod length polygon)) st of
        Inl e \<Rightarrow> Inl e
      | Inr st' \<Rightarrow> pip_loop pt polygon is st')"

definition is_point_in_polygon :: "point \<Rightarrow> point list \<Rightarrow> py_error + bool" where
  "is_point_in_polygon pt polygon =
     (case polygon of
        [] \<Rightarrow> Inl IndexError
      | p1 # _ \<Rightarrow> pip_loop pt polygon [0 ..< length polygon + 1] (p1, False, None))"

text \<open>
  \<open>calculate_anomaly_score\<close>: \<open>track['history'][-1]\<close> raises IndexError on an empty
  history; the second containment test is only evaluated when \<open>is_stopped\<close> holds.
\<close>

definition calculate_anomaly_score :: "BaselineModel \<Rightarrow> TrackedObject \<Rightarrow> bool \<Rightarrow> py_error + real" where
  "calculate_anomaly_score bm track stopped =
     (if history track = [] then Inl IndexError
      else
        let current_pos = pos (last (history track)) in
        (case is_point_in_polygon current_pos (normal_road_polygon bm) of
           Inl e \<Rightarrow> Inl e
         | Inr in_road \<Rightarrow>
             let location_anomaly = (if \<not> in_road then 0.95 else 0.0) in
             if stopped then
               (case is_point_in_polygon current_pos (normal_stopping_polygon bm) of
                  Inl e \<Rightarrow> Inl e
                | Inr in_stop \<Rightarrow>
                    Inr (max location_anomaly (if \<not> in_stop then 0.95 else 0.0)))
             else Inr (max location_anomaly 0.0)))"

subsection \<open>Speed of a track\<close>

text \<open>
  \<open>_calculate_speed_mps\<close>: the two last samples are read only when there are two;
  the division is guarded by \<open>time_s > 0\<close>. The arithmetic is exact: the rounding of
  float operations, and the OverflowError of \<open>** 0.5\<close> on an integer too large for a
  float, are outside the model.
\<close>

definition calculate_speed_mps :: "TrackedObject \<Rightarrow> py_error + real" where
  "calculate_speed_mps track =
     (if length (history track) < 2 then Inr 0.0
      else
        let p1 = history track ! (length (history track) - 2);
            p2 = history track ! (length (history track) - 1);
            dist_m = sqrt (real_of_int ((fst (pos p2) - fst (pos p1))\<^sup>2 + (snd (pos p2) - snd (pos p1))\<^sup>2))
                       * PIXELS_TO_METERS;
            time_s = time p2 - time p1
        in if time_s > 0 then py_truediv dist_m time_s else Inr 0.0)"

subsection \<open>Layer 3: BehavioralEngine\<close>

record scenario =
  playbook :: string
  state_index :: nat
  linked_obj_id :: "int option"

record BehavioralEngine =
  active_scenarios :: "int \<rightharpoonup> scenario"

text \<open>
  The per-frame \<open>context\<close> dict. \<open>all_tracks\<close> is the track store itself, \<open>speeds\<close> is
  only ever indexed; \<open>anomaly_score\<close> and \<open>is_stopped\<close> are written by the orchestrator
  before each call of \<open>update_scenarios\<close>.
\<close>

record ctx =
  all_tracks :: tracks
  speeds :: "int \<rightharpoonup> real"
  anomaly_score :: real
  is_stopped :: bool

definition BehavioralEngine_init :: BehavioralEngine where
  "BehavioralEngine_init = \<lparr> active_scenarios = Map.empty \<rparr>"

text \<open>
  The \<open>for other_obj in context['all_tracks'].values()\<close> loop of \<open>_check_driver_exit\<close>.
  Writing the link indexes \<open>self.active_scenarios\<close> by the vehicle's id, which raises
  KeyError when the vehicle has no scenario.
\<close>

fun driver_exit_loop ::
  "BehavioralEngine \<Rightarrow> TrackedObject \<Rightarrow> point \<Rightarrow> TrackedObject list \<Rightarrow> (py_error + bool) \<times> BehavioralEngine" where
  "driver_exit_loop eng vehicle_track vehicle_pos [] = (Inr False, eng)"
| "driver_exit_loop eng vehicle_track vehicle_pos (other_obj # rest) =
     (if label other_obj = ''pedestrian'' \<and> length (history other_obj) = 1 then
        let ped_pos = pos (last (history other_obj));
            dist = sqrt (real_of_int ((fst vehicle_pos - fst ped_pos)\<^sup>2 + (snd vehicle_pos - snd ped_pos)\<^sup>2))
        in if dist < 50 then
             (case active_scenarios eng (obj_id vehicle_track) of
                None \<Rightarrow> (Inl KeyError, eng)
              | Some sc \<Rightarrow>
                  (Inr True,
                   eng\<lparr>active_scenarios := (active_scenarios eng)
                          (obj_id vehicle_track \<mapsto> sc\<lparr>linked_obj_id := Some (obj_id other_obj)\<rparr>)\<rparr>))
           else driver_exit_loop eng vehicle_track vehicle_pos rest
      else driver_exit_loop eng vehicle_track vehicle_pos rest)"

definition check_driver_exit ::
  "BehavioralEngine \<Rightarrow> TrackedObject \<Rightarrow> ctx \<Rightarrow> (py_error + bool) \<times> BehavioralEngine" where
  "check_driver_exit eng vehicle_track context =
     (if history vehicle_track = [] then (Inl IndexError, eng)
      else driver_exit_loop eng vehicle_track (pos (last (history vehicle_track)))
             (map snd (all_tracks context)))"

definition check_driver_separation ::
  "BehavioralEngine \<Rightarrow> TrackedObject \<Rightarrow> ctx \<Rightarrow> (py_error + bool) \<times> BehavioralEngine" where
  "check_driver_separation eng vehicle_track context =
     (case active_scenarios eng (obj_id vehicle_track) of
        None \<Rightarrow> (Inl KeyError, eng)
      | Some sc \<Rightarrow>
          (case linked_obj_id sc of
             None \<Rightarrow> (Inr False, eng)
           | Some ped_id \<Rightarrow>
               (case map_of (all_tracks context) ped_id of
                  None \<Rightarrow> (Inr False, eng)
                | Some ped_track \<Rightarrow>
                    if length (history ped_track) < 2 then (Inr False, eng)
                    else if history vehicle_track = [] then (Inl IndexError, eng)
                    else
                      let ped_pos_curr = pos (history ped_track ! (length (history ped_track) - 1));
                          ped_pos_prev = pos (history ped_track ! (length (history ped_track) - 2));
                          vehicle_pos = pos (last (history vehicle_track));
                          dist_curr = sqrt (real_of_int ((fst vehicle_pos - fst ped_pos_curr)\<^sup>2
                                                         + (snd vehicle_pos - snd ped_pos_curr)\<^sup>2));
                          dist_prev = sqrt (real_of_int ((fst vehicle_pos - fst ped_pos_prev)\<^sup>2
                                                         + (snd vehicle_pos - snd ped_pos_prev)\<^sup>2))
                      in if dist_curr > dist_prev then
                           (case speeds context ped_id of
                              None \<Rightarrow> (Inl KeyError, eng)
                            | Some s \<Rightarrow> (Inr (s > STOP_SPEED_THRESHOLD_MPS), eng))
                         else (Inr False, eng))))"

text \<open>
  A trigger is one of the lambdas of \<open>_load_playbooks\<close>: it reads the track and the
  context, and (through \<open>self\<close>) may write the scenario table.
\<close>

type_synonym trigger =
  "BehavioralEngine \<Rightarrow> TrackedObject \<Rightarrow> ctx \<Rightarrow> (py_error + bool) \<times> BehavioralEngine"

record playbook_def =
  states :: "string list"
  triggers :: "trigger list"

definition load_playbooks :: "(string \<times> playbook_def) list" where
  "load_playbooks =
     [(''VBIED_DROPOFF'',
       \<lparr> states = [''APPROACH'', ''STOPPED_IN_ANOMALOUS_ZONE'', ''DRIVER_EXIT'', ''SEPARATION''],
         triggers =
           [\<lambda>eng track context. (Inr (is_stopped context \<and> anomaly_score context > ANOMALY_THRESHOLD), eng),
            \<lambda>eng track context. check_driver_exit eng track context,
            \<lambda>eng track context. check_driver_separation eng track context] \<rparr>)]"

text \<open>The \<open>for name, playbook in self.playbooks.items()\<close> loop that starts a scenario.\<close>

fun start_scenarios ::
  "BehavioralEngine \<Rightarrow> TrackedObject \<Rightarrow> (string \<times> playbook_def) list \<Rightarrow> BehavioralEngine" where
  "start_scenarios eng track [] = eng"
| "start_scenarios eng track ((pb_name, pb) # rest) =
     start_scenarios
       (if label track \<in> set [''van'', ''truck'', ''car'']
        then eng\<lparr>active_scenarios := (active_scenarios eng)
                   (obj_id track \<mapsto> \<lparr> playbook = pb_name, state_index = 0, linked_obj_id = None \<rparr>)\<rparr>
        else eng)
       track rest"

text \<open>
  \<open>update_scenarios\<close>. The local \<open>scenario\<close> is a reference to the dict stored in the
  table, so \<open>scenario['state_index'] += 1\<close> acts on the entry as the trigger left it.
  The debug print indexes \<open>playbook['states']\<close> with the new index, after the write.
  The outcome is \<open>None\<close> when the call returns and \<open>Some e\<close> when it raises \<open>e\<close>.
\<close>

definition update_scenarios ::
  "BehavioralEngine \<Rightarrow> TrackedObject \<Rightarrow> ctx \<Rightarrow> py_error option \<times> BehavioralEngine" where
  "update_scenarios eng track context =
     (let eng1 = (if active_scenarios eng (obj_id track) = None \<and> anomaly_score context > ANOMALY_THRESHOLD
                  then start_scenarios eng track load_playbooks else eng)
      in case active_scenarios eng1 (obj_id track) of
           None \<Rightarrow> (None, eng1)
         | Some sc \<Rightarrow>
             (case dict_index load_playbooks (playbook sc) of
                Inl e \<Rightarrow> (Some e, eng1)
              | Inr pb \<Rightarrow>
                  let current_state_index = state_index sc in
                  if current_state_index < length (triggers pb) then
                    (case (triggers pb ! current_state_index) eng1 track context of
                       (Inl e, eng2) \<Rightarrow> (Some e, eng2)
                     | (Inr fired, eng2) \<Rightarrow>
                         if fired then
                           (case active_scenarios eng2 (obj_id track) of
                              None \<Rightarrow> (None, eng2)
                            | Some sc2 \<Rightarrow>
                                let eng3 = eng2\<lparr>active_scenarios := (active_scenarios eng2)
                                                  (obj_id track \<mapsto> sc2\<lparr>state_index := state_index sc2 + 1\<rparr>)\<rparr>
                                in if state_index sc2 + 1 < length (states pb) then (None, eng3)
                                   else (Some IndexError, eng3))
                         else (None, eng2))
                  else (None, eng1)))"

record playbook_info =
  info_name :: string
  info_state :: string

definition get_matched_playbook_info :: "BehavioralEngine \<Rightarrow> int \<Rightarrow> py_error + playbook_info option" where
  "get_matched_playbook_info eng oid =
     (case active_scenarios eng oid of
        None \<Rightarrow> Inr None
      | Some sc \<Rightarrow>
          (case dict_index load_playbooks (playbook sc) of
             Inl e \<Rightarrow> Inl e
           | Inr pb \<Rightarrow>
               if state_index sc < length (states pb)
               then Inr (Some \<lparr> info_name = playbook sc, info_state = states pb ! state_index sc \<rparr>)
               else Inl IndexError))"

subsection \<open>Layer 4: ThreatSynthesizer\<close>

record evidence =
  ev_anomaly_score :: real
  ev_playbook_info :: "playbook_info option"

record ThreatSynthesizer =
  threat_probabilities :: "(int \<times> (string \<times> real) list) list"

record alert =
  alert_obj_id :: int
  threat_type :: string
  probability :: real

definition likelihoods :: "(string \<times> (string \<times> real) list) list" where
  "likelihoods =
     [(''VBIED_DROPOFF'',
       [(''high_anomaly'', 3.0),
        (''state_STOPPED_IN_ANOMALOUS_ZONE'', 10.0),
        (''state_DRIVER_EXIT'', 50.0),
        (''state_SEPARATION'', 100.0)])]"

definition ThreatSynthesizer_init :: ThreatSynthesizer where
  "ThreatSynthesizer_init = \<lparr> threat_probabilities = [] \<rparr>"

text \<open>
  The belief multiplier of \<open>update_threat_probabilities\<close>: a present \<open>playbook_info\<close>
  selects the state's likelihood (default 1.0), otherwise a high anomaly score selects
  \<open>high_anomaly\<close>.
\<close>

definition belief_multiplier :: "evidence \<Rightarrow> py_error + real" where
  "belief_multiplier ev =
     (let multiplier = 1.0 in
      case ev_playbook_info ev of
        Some info \<Rightarrow>
          (let threat_name = info_name info; state_name = info_state info in
           if threat_name \<in> fst ` set likelihoods then
             (case dict_index likelihoods threat_name of
                Inl e \<Rightarrow> Inl e
              | Inr tbl \<Rightarrow>
                  Inr (multiplier * (case map_of tbl (''state_'' @ state_name) of
                                       None \<Rightarrow> 1.0 | Some v \<Rightarrow> v)))
           else Inr multiplier)
      | None \<Rightarrow>
          if ev_anomaly_score ev > ANOMALY_THRESHOLD then
            (case dict_index likelihoods ''VBIED_DROPOFF'' of
               Inl e \<Rightarrow> Inl e
             | Inr tbl \<Rightarrow>
                 (case dict_index tbl ''high_anomaly'' of
                    Inl e \<Rightarrow> Inl e
                  | Inr v \<Rightarrow> Inr (multiplier * v)))
          else Inr multiplier)"

text \<open>\<open>_normalize\<close>: the cap at 0.999, for one object's threats.\<close>

definition normalize_probabilities :: "(string \<times> real) list \<Rightarrow> (string \<times> real) list" where
  "normalize_probabilities threats =
     map (\<lambda>(threat, prob). if prob > 0.999 then (threat, 0.999) else (threat, prob)) threats"

definition update_threat_probabilities ::
  "ThreatSynthesizer \<Rightarrow> int \<Rightarrow> evidence \<Rightarrow> py_error option \<times> ThreatSynthesizer" where
  "update_threat_probabilities syn oid ev =
     (let syn1 = (if map_of (threat_probabilities syn) oid = None
                  then syn\<lparr>threat_probabilities :=
                             AList.update oid [(''VBIED_DROPOFF'', 0.0001)] (threat_probabilities syn)\<rparr>
                  else syn)
      in case belief_multiplier ev of
           Inl e \<Rightarrow> (Some e, syn1)
         | Inr multiplier \<Rightarrow>
             (case dict_index (threat_probabilities syn1) oid of
                Inl e \<Rightarrow> (Some e, syn1)
              | Inr threats \<Rightarrow>
                  let threats' = map (\<lambda>(threat, prob).
                                        if threat \<in> fst ` set likelihoods
                                        then (threat, prob * multiplier) else (threat, prob)) threats
                  in (None, syn1\<lparr>threat_probabilities :=
                                   AList.update oid (normalize_probabilities threats') (threat_probabilities syn1)\<rparr>)))"

text \<open>
  \<open>get_prioritized_alerts\<close>. \<open>sorted(alerts, key=probability, reverse=True)\<close> is a stable
  sort into descending key order; \<open>sort_key\<close> on the negated key is the same stable sort.
\<close>

definition collect_alerts :: "ThreatSynthesizer \<Rightarrow> alert list" where
  "collect_alerts syn =
     concat (map (\<lambda>(oid, threats).
                    map (\<lambda>(threat, p). \<lparr> alert_obj_id = oid, threat_type = threat, probability = p \<rparr>)
                      (filter (\<lambda>(threat, p). p > ALERT_PROBABILITY_THRESHOLD) threats))
               (threat_probabilities syn))"

definition get_prioritized_alerts :: "ThreatSynthesizer \<Rightarrow> alert list" where
  "get_prioritized_alerts syn = sort_key (\<lambda>x. - probability x) (collect_alerts syn)"

subsection \<open>The orchestrator: ThreatDetector\<close>

record ThreatDetector =
  tracked_objects :: tracks
  baseline_model :: BaselineModel
  behavioral_engine :: BehavioralEngine
  threat_synthesizer :: ThreatSynthesizer

definition ThreatDetector_init :: ThreatDetector where
  "ThreatDetector_init =
     \<lparr> tracked_objects = [],
       baseline_model = BaselineModel_init,
       behavioral_engine = BehavioralEngine_init,
       threat_synthesizer = ThreatSynthesizer_init \<rparr>"

definition get_center :: "int \<times> int \<times> int \<times> int \<Rightarrow> point" where
  "get_center bbox = (case bbox of (x, y, w, h) \<Rightarrow> (x + w div 2, y + h div 2))"

text \<open>
  \<open>_update_tracks\<close> on the track store. A detection is a dict: a missing \<open>obj_id\<close> or
  \<open>bbox\<close> raises KeyError when read, a missing \<open>label\<close> only when the object is new.
  The store as left at the moment of the raise is returned with the error.
\<close>

fun update_tracks :: "tracks \<Rightarrow> Detection list \<Rightarrow> real \<Rightarrow> py_error option \<times> tracks" where
  "update_tracks tr [] current_time = (None, tr)"
| "update_tracks tr (det # rest) current_time =
     (case det_obj_id det of
        None \<Rightarrow> (Some KeyError, tr)
      | Some oid \<Rightarrow>
          (case det_bbox det of
             None \<Rightarrow> (Some KeyError, tr)
           | Some bbox \<Rightarrow>
               let center_pos = get_center bbox in
               (case (if map_of tr oid = None
                      then (case det_label det of
                              None \<Rightarrow> Inl KeyError
                            | Some l \<Rightarrow>
                                Inr (AList.update oid
                                       \<lparr> obj_id = oid, label = l, history = [], last_updated = None \<rparr> tr))
                      else Inr tr) of
                  Inl e \<Rightarrow> (Some e, tr)
                | Inr tr1 \<Rightarrow>
                    (case map_of tr1 oid of
                       None \<Rightarrow> (Some KeyError, tr1)
                     | Some t \<Rightarrow>
                         update_tracks
                           (AList.update oid
                              (t\<lparr>history := history t @ [\<lparr> pos = center_pos, time = current_time \<rparr>],
                                 last_updated := Some current_time\<rparr>) tr1)
                           rest current_time))))"

text \<open>The dict comprehension that computes \<open>context['speeds']\<close>.\<close>

fun build_speeds :: "tracks \<Rightarrow> (int \<rightharpoonup> real) \<Rightarrow> py_error + (int \<rightharpoonup> real)" where
  "build_speeds [] acc = Inr acc"
| "build_speeds ((oid, t) # rest) acc =
     (case calculate_speed_mps t of
        Inl e \<Rightarrow> Inl e
      | Inr s \<Rightarrow> build_speeds rest (acc(oid \<mapsto> s)))"

text \<open>
  The body of \<open>for obj_id, track in self.tracked_objects.items()\<close>, on the two layers it
  mutates. \<open>context['anomaly_score']\<close> and \<open>context['is_stopped']\<close> are overwritten before
  every use, so each pass builds its context from the frame's tracks and speeds.
\<close>

definition process_object ::
  "BaselineModel \<Rightarrow> tracks \<Rightarrow> (int \<rightharpoonup> real) \<Rightarrow> int \<Rightarrow> TrackedObject
     \<Rightarrow> BehavioralEngine \<times> ThreatSynthesizer
     \<Rightarrow> py_error option \<times> (BehavioralEngine \<times> ThreatSynthesizer)" where
  "process_object bm trs sp oid track st =
     (case st of (eng, syn) \<Rightarrow>
        (case sp oid of
           None \<Rightarrow> (Some KeyError, (eng, syn))
         | Some v \<Rightarrow>
             let stopped = (v < STOP_SPEED_THRESHOLD_MPS) in
             (case calculate_anomaly_score bm track stopped of
                Inl e \<Rightarrow> (Some e, (eng, syn))
              | Inr score \<Rightarrow>
                  let context = \<lparr> all_tracks = trs, speeds = sp, anomaly_score = score, is_stopped = stopped \<rparr> in
                  (case update_scenarios eng track context of
                     (Some e, eng') \<Rightarrow> (Some e, (eng', syn))
                   | (None, eng') \<Rightarrow>
                       (case get_matched_playbook_info eng' oid of
                          Inl e \<Rightarrow> (Some e, (eng', syn))
                        | Inr info \<Rightarrow>
                            (case update_threat_probabilities syn oid
                                    \<lparr> ev_anomaly_score = score, ev_playbook_info = info \<rparr> of
                               (r, syn') \<Rightarrow> (r, (eng', syn'))))))))"

fun process_objects ::
  "BaselineModel \<Rightarrow> tracks \<Rightarrow> (int \<rightharpoonup> real) \<Rightarrow> tracks
     \<Rightarrow> BehavioralEngine \<times> ThreatSynthesizer
     \<Rightarrow> py_error option \<times> (BehavioralEngine \<times> ThreatSynthesizer)" where
  "process_objects bm trs sp [] st = (None, st)"
| "process_objects bm trs sp ((oid, track) # rest) st =
     (case process_object bm trs sp oid track st of
        (Some e, st') \<Rightarrow> (Some e, st')
      | (None, st') \<Rightarrow> process_objects bm trs sp rest st')"

definition process_frame_data :: "ThreatDetector \<Rightarrow> FrameData \<Rightarrow> (py_error + alert list) \<times> ThreatDetector" where
  "process_frame_data det frame_data =
     (let current_time = timestamp frame_data in
      case update_tracks (tracked_objects det) (detections frame_data) current_time of
        (Some e, trs) \<Rightarrow> (Inl e, det\<lparr>tracked_objects := trs\<rparr>)
      | (None, trs) \<Rightarrow>
          let det1 = det\<lparr>tracked_objects := trs\<rparr> in
          (case build_speeds trs Map.empty of
             Inl e \<Rightarrow> (Inl e, det1)
           | Inr sp \<Rightarrow>
               (case process_objects (baseline_model det1) trs sp trs
                       (behavioral_engine det1, threat_synthesizer det1) of
                  (Some e, (eng, syn)) \<Rightarrow>
                    (Inl e, det1\<lparr>behavioral_engine := eng, threat_synthesizer := syn\<rparr>)
                | (None, (eng, syn)) \<Rightarrow>
                    (Inr (get_prioritized_alerts syn),
                     det1\<lparr>behavioral_engine := eng, threat_synthesizer := syn\<rparr>))))"

text \<open>
  Feeding a sequence of frames, as the caller's loop does: the alert lists returned so
  far, the exception that stopped the run (if any), and the detector reached.
\<close>

fun run_frames :: "ThreatDetector \<Rightarrow> FrameData list \<Rightarrow> alert list list \<times> py_error option \<times> ThreatDetector" where
  "run_frames det [] = ([], None, det)"
| "run_frames det (f # fs) =
     (case process_frame_data det f of
        (Inl e, det') \<Rightarrow> ([], Some e, det')
      | (Inr alerts, det') \<Rightarrow>
          (case run_frames det' fs of
             (rest, r, det'') \<Rightarrow> (alerts # rest, r, det'')))"

subsection \<open>Reading and driving the belief table\<close>

text \<open>\<open>self.threat_probabilities[oid][threat]\<close>, when both keys are present.\<close>

definition belief :: "ThreatSynthesizer \<Rightarrow> int \<Rightarrow> string \<Rightarrow> real option" where
  "belief syn oid threat =
     (case map_of (threat_probabilities syn) oid of
        None \<Rightarrow> None
      | Some threats \<Rightarrow> map_of threats threat)"

text \<open>A sequence of \<open>update_threat_probabilities\<close> calls on one synthesizer.\<close>

fun update_all :: "ThreatSynthesizer \<Rightarrow> (int \<times> evidence) list \<Rightarrow> ThreatSynthesizer" where
  "update_all syn [] = syn"
| "update_all syn ((oid, ev) # calls) = update_all (snd (update_threat_probabilities syn oid ev)) calls"


text \<open>A dict has each key once: the shape of every belief table the program builds.\<close>

definition beliefs_well_formed :: "ThreatSynthesizer \<Rightarrow> bool" where
  "beliefs_well_formed syn \<longleftrightarrow>
     distinct (map fst (threat_probabilities syn))
     \<and> (\<forall>(oid, threats) \<in> set (threat_probabilities syn). distinct (map fst threats))"

subsection \<open>Driving the engine\<close>

text \<open>
  A sequence of \<open>update_scenarios\<close> calls on one engine; a call that raises leaves the
  engine as it was at the raise, and the next call goes on from there.
\<close>

fun update_scenarios_all :: "BehavioralEngine \<Rightarrow> (TrackedObject \<times> ctx) list \<Rightarrow> BehavioralEngine" where
  "update_scenarios_all eng [] = eng"
| "update_scenarios_all eng ((track, context) # calls) =
     update_scenarios_all (snd (update_scenarios eng track context)) calls"

text \<open>
  What every scenario of a reachable engine satisfies: it runs the one playbook, its
  index is at most the number of triggers, and a link is present only from
  \<open>DRIVER_EXIT\<close> on.
\<close>

definition scenarios_ok :: "BehavioralEngine \<Rightarrow> bool" where
  "scenarios_ok eng \<longleftrightarrow>
     (\<forall>oid sc. active_scenarios eng oid = Some sc \<longrightarrow>
        playbook sc = ''VBIED_DROPOFF'' \<and> state_index sc \<le> 3
        \<and> (linked_obj_id sc \<noteq> None \<longrightarrow> 2 \<le> state_index sc))"

subsection \<open>Sample inputs\<close>

text \<open>A van stopped off the road at (430, 375), alone or with a first-seen pedestrian.\<close>

definition stopped_van :: TrackedObject where
  "stopped_van = \<lparr> obj_id = 101, label = ''van'',
                    history = [\<lparr> pos = (430, 375), time = 3 \<rparr>], last_updated = Some 3 \<rparr>"

definition new_pedestrian :: "int \<Rightarrow> point \<Rightarrow> TrackedObject" where
  "new_pedestrian oid p = \<lparr> obj_id = oid, label = ''pedestrian'',
                             history = [\<lparr> pos = p, time = 5 \<rparr>], last_updated = Some 5 \<rparr>"

definition van_alone :: ctx where
  "van_alone = \<lparr> all_tracks = [(101, stopped_van)], speeds = [101 \<mapsto> 0],
                  anomaly_score = 0.95, is_stopped = True \<rparr>"

definition van_with_pedestrian :: "int \<Rightarrow> point \<Rightarrow> ctx" where
  "van_with_pedestrian oid p =
     \<lparr> all_tracks = [(101, stopped_van), (oid, new_pedestrian oid p)], speeds = [101 \<mapsto> 0, oid \<mapsto> 0],
       anomaly_score = 0.95, is_stopped = True \<rparr>"

subsection \<open>The reference feed\<close>

text \<open>\<open>simulation_api_feed\<close> of the \<open>__main__\<close> block: van 101, then pedestrian 202.\<close>

definition simulation_api_feed :: "FrameData list" where
  "simulation_api_feed =
     [\<lparr> timestamp = 1.0, detections =
          [\<lparr> det_obj_id = Some 101, det_label = Some ''van'', det_bbox = Some (100, 240, 60, 50) \<rparr>] \<rparr>,
      \<lparr> timestamp = 2.0, detections =
          [\<lparr> det_obj_id = Some 101, det_label = Some ''van'', det_bbox = Some (250, 245, 60, 50) \<rparr>] \<rparr>,
      \<lparr> timestamp = 3.0, detections =
          [\<lparr> det_obj_id = Some 101, det_label = Some ''van'', det_bbox = Some (400, 350, 60, 50) \<rparr>] \<rparr>,
      \<lparr> timestamp = 4.0, detections =
          [\<lparr> det_obj_id = Some 101, det_label = Some ''van'', det_bbox = Some (400, 350, 60, 50) \<rparr>] \<rparr>,
      \<lparr> timestamp = 5.0, detections =
          [\<lparr> det_obj_id = Some 101, det_label = Some ''van'', det_bbox = Some (400, 350, 60, 50) \<rparr>,
           \<lparr> det_obj_id = Some 202, det_label = Some ''pedestrian'', det_bbox = Some (450, 350, 20, 40) \<rparr>] \<rparr>,
      \<lparr> timestamp = 6.0, detections =
          [\<lparr> det_obj_id = Some 101, det_label = Some ''van'', det_bbox = Some (400, 350, 60, 50) \<rparr>,
           \<lparr> det_obj_id = Some 202, det_label = Some ''pedestrian'', det_bbox = Some (480, 355, 20, 40) \<rparr>] \<rparr>,
      \<lparr> timestamp = 7.0, detections =
          [\<lparr> det_obj_id = Some 101, det_label = Some ''van'', det_bbox = Some (400, 350, 60, 50) \<rparr>,
           \<lparr> det_obj_id = Some 202, det_label = Some ''pedestrian'', det_bbox = Some (510, 360, 20, 40) \<rparr>] \<rparr>]"

text \<open>
  A car that drives along the normal road: one detection of car 8 per frame, 100 pixels
  further each second, centres (130, 265), (230, 265), (330, 265), (430, 265). No other
  object is ever reported.
\<close>

definition road_feed :: "FrameData list" where
  "road_feed =
     [\<lparr> timestamp = 1.0, detections =
          [\<lparr> det_obj_id = Some 8, det_label = Some ''car'', det_bbox = Some (100, 240, 60, 50) \<rparr>] \<rparr>,
      \<lparr> timestamp = 2.0, detections =
          [\<lparr> det_obj_id = Some 8, det_label = Some ''car'', det_bbox = Some (200, 240, 60, 50) \<rparr>] \<rparr>,
      \<lparr> timestamp = 3.0, detections =
          [\<lparr> det_obj_id = Some 8, det_label = Some ''car'', det_bbox = Some (300, 240, 60, 50) \<rparr>] \<rparr>,
      \<lparr> timestamp = 4.0, detections =
          [\<lparr> det_obj_id = Some 8, det_label = Some ''car'', det_bbox = Some (400, 240, 60, 50) \<rparr>] \<rparr>]"

subsection \<open>Well-formed track stores\<close>

text \<open>The track store is a dict keyed by the tracks' own ids.\<close>

definition tracks_ok :: "tracks \<Rightarrow> bool" where
  "tracks_ok trs \<longleftrightarrow> distinct (map fst trs) \<and> list_all (\<lambda>(k, t). obj_id t = k) trs"

subsection \<open>Malformed detections\<close>

text \<open>
  A detection that makes \<open>_update_tracks\<close> raise on the given store: \<open>obj_id\<close> or \<open>bbox\<close>
  is missing, or \<open>label\<close> is missing and the object is not yet tracked.
\<close>

definition malformed :: "tracks \<Rightarrow> Detection \<Rightarrow> bool" where
  "malformed trs det \<longleftrightarrow>
     (case det_obj_id det of
        None \<Rightarrow> True
      | Some oid \<Rightarrow> det_bbox det = None \<or> (map_of trs oid = None \<and> det_label det = None))"

section \<open>Properties\<close>

subsection \<open>The track store\<close>

lemma tracks_ok_iff:
  "tracks_ok trs \<longleftrightarrow> distinct (map fst trs) \<and> (\<forall>k t. (k, t) \<in> set trs \<longrightarrow> obj_id t = k)"
  by (auto simp: tracks_ok_def list_all_iff)

subsection \<open>The containment test never raises\<close>

lemma pip_body_total:
  "\<exists>st'. pip_body pt p2 st = Inr st'"
  apply (cases pt; cases p2; cases st)
  apply (auto simp: pip_body_def py_truediv_def split: sum.splits option.splits)
  done

lemma pip_loop_total: "\<exists>b. pip_loop pt polygon is st = Inr b"
proof (induction "is" arbitrary: st)
  case Nil
  show ?case by simp
next
  case (Cons i "is")
  obtain st' where "pip_body pt (polygon ! (i mod length polygon)) st = Inr st'"
    using pip_body_total by blast
  with Cons show ?case by simp
qed

lemma is_point_in_polygon_total:
  "polygon \<noteq> [] \<Longrightarrow> \<exists>b. is_point_in_polygon pt polygon = Inr b"
  by (cases polygon) (simp_all add: is_point_in_polygon_def pip_loop_total)

lemma upt5: "[0..<5] = [0,1,2,3,4]"
  by (simp add: upt_rec)

lemma in_road_closed_form:
  "is_point_in_polygon (x, y) (normal_road_polygon BaselineModel_init)
     = Inr (0 < x \<and> x \<le> 1000 \<and> 220 < y \<and> y \<le> 300)"
  by (auto simp: is_point_in_polygon_def BaselineModel_init_def upt5 pip_body_def py_truediv_def)

lemma in_stop_closed_form:
  "is_point_in_polygon (x, y) (normal_stopping_polygon BaselineModel_init)
     = Inr (800 < x \<and> x \<le> 900 \<and> 220 < y \<and> y \<le> 300)"
  by (auto simp: is_point_in_polygon_def BaselineModel_init_def upt5 pip_body_def py_truediv_def)

subsection \<open>Anomaly score\<close>

text \<open>
  C6. For every track with at least one sample (every track of the store has one) and
  every \<open>is_stopped\<close> flag, \<open>calculate_anomaly_score\<close> returns, without raising, the
  maximum of the location sub-score (0.95 outside the normal-road polygon, else 0) and
  the stop sub-score (0.95 when stopped and outside the normal-stopping polygon, else
  0); the value lies in [0, 1], and when both sub-scores are 0.95 it is 0.95.
\<close>

theorem anomaly_score_is_max_of_subscores:
  assumes "history track \<noteq> []"
    and "normal_road_polygon bm \<noteq> []"
    and "normal_stopping_polygon bm \<noteq> []"
  shows "\<exists>in_road in_stop.
           is_point_in_polygon (pos (last (history track))) (normal_road_polygon bm) = Inr in_road
         \<and> is_point_in_polygon (pos (last (history track))) (normal_stopping_polygon bm) = Inr in_stop
         \<and> calculate_anomaly_score bm track stopped
             = Inr (max (if \<not> in_road then 0.95 else 0) (if stopped \<and> \<not> in_stop then 0.95 else 0))
         \<and> (\<exists>s. calculate_anomaly_score bm track stopped = Inr s \<and> 0 \<le> s \<and> s \<le> 1)
         \<and> (\<not> in_road \<and> stopped \<and> \<not> in_stop \<longrightarrow> calculate_anomaly_score bm track stopped = Inr 0.95)"
proof -
  obtain in_road where r: "is_point_in_polygon (pos (last (history track))) (normal_road_polygon bm) = Inr in_road"
    using is_point_in_polygon_total [OF assms(2)] by blast
  obtain in_stop where s: "is_point_in_polygon (pos (last (history track))) (normal_stopping_polygon bm) = Inr in_stop"
    using is_point_in_polygon_total [OF assms(3)] by blast
  have "calculate_anomaly_score bm track stopped
          = Inr (max (if \<not> in_road then 0.95 else 0) (if stopped \<and> \<not> in_stop then 0.95 else 0))"
    using assms(1) r s by (simp add: calculate_anomaly_score_def Let_def)
  with r s show ?thesis by auto
qed

theorem anomaly_score_is_max_of_subscores_witness:
  "history \<lparr> obj_id = 101, label = ''van'', history = [\<lparr> pos = (430, 375), time = 3 \<rparr>], last_updated = Some 3 \<rparr> \<noteq> []
   \<and> normal_road_polygon BaselineModel_init \<noteq> []
   \<and> normal_stopping_polygon BaselineModel_init \<noteq> []
   \<and> calculate_anomaly_score BaselineModel_init
        \<lparr> obj_id = 101, label = ''van'', history = [\<lparr> pos = (430, 375), time = 3 \<rparr>], last_updated = Some 3 \<rparr> True
       = Inr 0.95"
proof -
  let ?t = "\<lparr> obj_id = 101, label = ''van'', history = [\<lparr> pos = (430, 375), time = 3 \<rparr>], last_updated = Some 3 \<rparr>"
  have h1: "history ?t \<noteq> []" by simp
  have h2: "normal_road_polygon BaselineModel_init \<noteq> []" by (simp add: BaselineModel_init_def)
  have h3: "normal_stopping_polygon BaselineModel_init \<noteq> []" by (simp add: BaselineModel_init_def)
  obtain in_road in_stop where
    r: "is_point_in_polygon (pos (last (history ?t))) (normal_road_polygon BaselineModel_init) = Inr in_road"
    and s: "is_point_in_polygon (pos (last (history ?t))) (normal_stopping_polygon BaselineModel_init) = Inr in_stop"
    and m: "\<not> in_road \<and> True \<and> \<not> in_stop \<longrightarrow> calculate_anomaly_score BaselineModel_init ?t True = Inr 0.95"
    using anomaly_score_is_max_of_subscores [OF h1 h2 h3, of True] by blast
  have "\<not> in_road" using r by (simp add: in_road_closed_form)
  moreover have "\<not> in_stop" using s by (simp add: in_stop_closed_form)
  ultimately show ?thesis using m h1 h2 h3 by blast
qed

subsection \<open>Speed\<close>

text \<open>
  C8. \<open>_calculate_speed_mps\<close> never raises (in particular no ZeroDivisionError); a track
  with fewer than two samples has speed 0, and so has a track whose last two samples
  have zero or negative elapsed time between them.
\<close>

theorem speed_guarded_against_degenerate_timing:
  "(\<forall>e. calculate_speed_mps track \<noteq> Inl e)
   \<and> (length (history track) < 2 \<longrightarrow> calculate_speed_mps track = Inr 0)
   \<and> (2 \<le> length (history track)
        \<and> time (history track ! (length (history track) - 1))
            - time (history track ! (length (history track) - 2)) \<le> 0
      \<longrightarrow> calculate_speed_mps track = Inr 0)"
  by (auto simp: calculate_speed_mps_def py_truediv_def Let_def)

theorem speed_guarded_against_degenerate_timing_witness:
  "length (history \<lparr> obj_id = 7, label = ''car'', history = [\<lparr> pos = (10, 250), time = 1 \<rparr>], last_updated = Some 1 \<rparr>) < 2
   \<and> calculate_speed_mps \<lparr> obj_id = 7, label = ''car'', history = [\<lparr> pos = (10, 250), time = 1 \<rparr>], last_updated = Some 1 \<rparr> = Inr 0
   \<and> calculate_speed_mps
        \<lparr> obj_id = 7, label = ''car'',
          history = [\<lparr> pos = (10, 250), time = 2 \<rparr>, \<lparr> pos = (90, 250), time = 2 \<rparr>],
          last_updated = Some 2 \<rparr> = Inr 0
   \<and> calculate_speed_mps
        \<lparr> obj_id = 7, label = ''car'',
          history = [\<lparr> pos = (10, 250), time = 2 \<rparr>, \<lparr> pos = (90, 250), time = 1 \<rparr>],
          last_updated = Some 1 \<rparr> = Inr 0"
  using speed_guarded_against_degenerate_timing
          [of "\<lparr> obj_id = 7, label = ''car'', history = [\<lparr> pos = (10, 250), time = 1 \<rparr>], last_updated = Some 1 \<rparr>"]
        speed_guarded_against_degenerate_timing
          [of "\<lparr> obj_id = 7, label = ''car'',
                 history = [\<lparr> pos = (10, 250), time = 2 \<rparr>, \<lparr> pos = (90, 250), time = 2 \<rparr>],
                 last_updated = Some 2 \<rparr>"]
        speed_guarded_against_degenerate_timing
          [of "\<lparr> obj_id = 7, label = ''car'',
                 history = [\<lparr> pos = (10, 250), time = 2 \<rparr>, \<lparr> pos = (90, 250), time = 1 \<rparr>],
                 last_updated = Some 1 \<rparr>"]
  by simp



subsection \<open>Belief updates\<close>

lemma belief_multiplier_cases:
  "\<exists>m. belief_multiplier ev = Inr m \<and> 1 \<le> m"
  by (auto simp: belief_multiplier_def likelihoods_def dict_index_def Let_def
           split: option.splits)

lemma map_of_map_val:
  "map_of (map (\<lambda>(k, v). (k, g k v)) xs) k = map_option (g k) (map_of xs k)"
  by (induction xs) auto












subsection \<open>Alerts\<close>

lemma set_collect_alerts:
  "set (collect_alerts syn) =
     {\<lparr> alert_obj_id = oid, threat_type = t, probability = p \<rparr> | oid t p.
        \<exists>ths. (oid, ths) \<in> set (threat_probabilities syn) \<and> (t, p) \<in> set ths
              \<and> p > ALERT_PROBABILITY_THRESHOLD}"
  by (auto simp: collect_alerts_def) force

lemma belief_iff_entry:
  assumes "beliefs_well_formed syn"
  shows "belief syn oid t = Some p
         \<longleftrightarrow> (\<exists>ths. (oid, ths) \<in> set (threat_probabilities syn) \<and> (t, p) \<in> set ths)"
proof
  assume "belief syn oid t = Some p"
  then obtain ths where "map_of (threat_probabilities syn) oid = Some ths" "map_of ths t = Some p"
    by (auto simp: belief_def split: option.splits)
  then show "\<exists>ths. (oid, ths) \<in> set (threat_probabilities syn) \<and> (t, p) \<in> set ths"
    by (meson map_of_SomeD)
next
  assume "\<exists>ths. (oid, ths) \<in> set (threat_probabilities syn) \<and> (t, p) \<in> set ths"
  then obtain ths where a: "(oid, ths) \<in> set (threat_probabilities syn)" "(t, p) \<in> set ths" by blast
  have "map_of (threat_probabilities syn) oid = Some ths"
    using assms a(1) by (simp add: beliefs_well_formed_def)
  moreover have "distinct (map fst ths)" using assms a(1) by (auto simp: beliefs_well_formed_def)
  then have "map_of ths t = Some p" using a(2) by simp
  ultimately show "belief syn oid t = Some p" by (simp add: belief_def)
qed

lemma distinct_collect_alerts:
  assumes "beliefs_well_formed syn"
  shows "distinct (collect_alerts syn)"
proof -
  have inner: "distinct (map (\<lambda>(threat, p). \<lparr> alert_obj_id = oid, threat_type = threat, probability = p \<rparr>)
                     (filter (\<lambda>(threat, p). p > ALERT_PROBABILITY_THRESHOLD) ths))"
    if "distinct (map fst ths)" for oid ths
  proof -
    have "distinct ths" using that by (rule distinct_map [THEN iffD1, THEN conjunct1])
    then have "distinct (filter (\<lambda>(threat, p). p > ALERT_PROBABILITY_THRESHOLD) ths)" by simp
    then show ?thesis by (auto simp: distinct_map inj_on_def)
  qed
  have "distinct (concat (map (\<lambda>(oid, threats).
                    map (\<lambda>(threat, p). \<lparr> alert_obj_id = oid, threat_type = threat, probability = p \<rparr>)
                      (filter (\<lambda>(threat, p). p > ALERT_PROBABILITY_THRESHOLD) threats)) tp))"
    if "distinct (map fst tp)" "\<forall>(oid, threats) \<in> set tp. distinct (map fst threats)" for tp :: "(int \<times> (string \<times> real) list) list"
    using that
  proof (induction tp)
    case Nil
    show ?case by simp
  next
    case (Cons a tp)
    obtain oid ths where a: "a = (oid, ths)" by (cases a)
    have "oid \<notin> fst ` set tp" using Cons.prems(1) a by simp
    then have disj: "\<And>x. x \<in> set (concat (map (\<lambda>(oid, threats).
                    map (\<lambda>(threat, p). \<lparr> alert_obj_id = oid, threat_type = threat, probability = p \<rparr>)
                      (filter (\<lambda>(threat, p). p > ALERT_PROBABILITY_THRESHOLD) threats)) tp)) \<Longrightarrow> alert_obj_id x \<noteq> oid"
      by (auto simp: image_iff)
    show ?case using Cons a inner [of ths oid] disj by (auto simp: image_iff)
  qed
  then show ?thesis using assms by (simp add: collect_alerts_def beliefs_well_formed_def)
qed

lemma map_fst_normalize_probabilities: "map fst (normalize_probabilities xs) = map fst xs"
  by (induction xs) (auto simp: normalize_probabilities_def)

lemma map_fst_scaled:
  "map fst (map (\<lambda>(threat, prob). if threat \<in> K then (threat, prob * m) else (threat, prob)) xs) = map fst xs"
  by (induction xs) auto

lemma set_update_subset: "set (AList.update k v al) \<subseteq> insert (k, v) (set al)"
  by (induction al) auto

lemma all_entries_update:
  "\<forall>(k', v') \<in> set al. P v' \<Longrightarrow> P v \<Longrightarrow> \<forall>(k', v') \<in> set (AList.update k v al). P v'"
  using set_update_subset [of k v al] by auto

lemma beliefs_well_formed_step:
  assumes "beliefs_well_formed syn"
  shows "beliefs_well_formed (snd (update_threat_probabilities syn oid ev))"
proof -
  obtain m where m: "belief_multiplier ev = Inr m" using belief_multiplier_cases by blast
  define tp1 where "tp1 = (if map_of (threat_probabilities syn) oid = None
                  then AList.update oid [(''VBIED_DROPOFF'', 0.0001)] (threat_probabilities syn)
                  else threat_probabilities syn)"
  have d1: "distinct (map fst tp1)"
    using assms by (simp add: tp1_def beliefs_well_formed_def distinct_update)
  have i1: "\<forall>(o', ths) \<in> set tp1. distinct (map fst ths)"
    using assms all_entries_update [of "threat_probabilities syn" "\<lambda>ths. distinct (map fst ths)"
                                       "[(''VBIED_DROPOFF'', 0.0001)]" oid]
    by (auto simp: tp1_def beliefs_well_formed_def)
  obtain ths where ths: "map_of tp1 oid = Some ths"
    by (cases "map_of (threat_probabilities syn) oid") (auto simp: tp1_def update_conv')
  then have dths: "distinct (map fst ths)" using i1 by (auto dest: map_of_SomeD)
  let ?new = "normalize_probabilities (map (\<lambda>(threat, prob). if threat \<in> fst ` set likelihoods
                                        then (threat, prob * m) else (threat, prob)) ths)"
  have res: "threat_probabilities (snd (update_threat_probabilities syn oid ev)) = AList.update oid ?new tp1"
    using m ths
    by (auto simp: update_threat_probabilities_def Let_def dict_index_def tp1_def split: option.splits)
  have "distinct (map fst (AList.update oid ?new tp1))" using d1 by (simp add: distinct_update)
  moreover have "\<forall>(o', ths') \<in> set (AList.update oid ?new tp1). distinct (map fst ths')"
    using all_entries_update [of tp1 "\<lambda>ths. distinct (map fst ths)" ?new oid] i1 dths
    by (simp only: map_fst_normalize_probabilities map_fst_scaled) simp
  ultimately show ?thesis by (simp add: beliefs_well_formed_def res)
qed

lemma beliefs_well_formed_update_all:
  "beliefs_well_formed syn \<Longrightarrow> beliefs_well_formed (update_all syn calls)"
  by (induction syn calls rule: update_all.induct) (auto simp: beliefs_well_formed_step)

lemma beliefs_well_formed_init: "beliefs_well_formed ThreatSynthesizer_init"
  by (simp add: beliefs_well_formed_def ThreatSynthesizer_init_def)

lemma process_frame_data_alerts:
  "process_frame_data det f = (Inr alerts, det') \<Longrightarrow>
     get_prioritized_alerts (threat_synthesizer det') = alerts"
  by (auto simp: process_frame_data_def Let_def split: prod.splits option.splits sum.splits)

text \<open>
  C5. On any belief table (a dict: each key once), \<open>get_prioritized_alerts\<close> returns
  exactly the \<open>(obj_id, threat_type, probability)\<close> entries whose stored probability is
  strictly above the alert threshold, each once, in descending order of probability;
  entries of equal probability keep the insertion order of the table (the sort is
  stable). The call reads the table only: the list a frame returns is the list a
  following call returns on the state the frame left.
\<close>

theorem alerts_exact_sorted_stable:
  assumes "beliefs_well_formed syn"
  shows "(\<forall>oid t p. \<lparr> alert_obj_id = oid, threat_type = t, probability = p \<rparr> \<in> set (get_prioritized_alerts syn)
                   \<longleftrightarrow> belief syn oid t = Some p \<and> p > ALERT_PROBABILITY_THRESHOLD)
       \<and> distinct (get_prioritized_alerts syn)
       \<and> sorted_wrt (\<lambda>a b. probability a \<ge> probability b) (get_prioritized_alerts syn)
       \<and> (\<forall>p. filter (\<lambda>a. probability a = p) (get_prioritized_alerts syn)
              = filter (\<lambda>a. probability a = p) (collect_alerts syn))
       \<and> (\<forall>det f alerts det'. process_frame_data det f = (Inr alerts, det')
              \<longrightarrow> get_prioritized_alerts (threat_synthesizer det') = alerts)"
proof -
  have 1: "\<forall>oid t p. \<lparr> alert_obj_id = oid, threat_type = t, probability = p \<rparr> \<in> set (get_prioritized_alerts syn)
                   \<longleftrightarrow> belief syn oid t = Some p \<and> p > ALERT_PROBABILITY_THRESHOLD"
    by (auto simp: get_prioritized_alerts_def set_collect_alerts belief_iff_entry [OF assms])
  have 2: "distinct (get_prioritized_alerts syn)"
    using distinct_collect_alerts [OF assms] by (simp add: get_prioritized_alerts_def)
  have "sorted (map (\<lambda>x. - probability x) (get_prioritized_alerts syn))"
    by (simp add: get_prioritized_alerts_def)
  then have 3: "sorted_wrt (\<lambda>a b. probability a \<ge> probability b) (get_prioritized_alerts syn)"
    by (simp add: sorted_map)
  have 4: "filter (\<lambda>a. probability a = p) (get_prioritized_alerts syn)
              = filter (\<lambda>a. probability a = p) (collect_alerts syn)" for p
    using sort_key_stable [of "\<lambda>x. - probability x" "- p" "collect_alerts syn"]
    by (simp add: get_prioritized_alerts_def)
  show ?thesis using 1 2 3 4 process_frame_data_alerts by blast
qed

theorem alerts_exact_sorted_stable_witness:
  "beliefs_well_formed \<lparr> threat_probabilities =
       [(202, [(''VBIED_DROPOFF'', 0.0027)]), (101, [(''VBIED_DROPOFF'', 0.999)]),
        (303, [(''VBIED_DROPOFF'', 0.9)]), (404, [(''VBIED_DROPOFF'', 0.999)])] \<rparr>
   \<and> get_prioritized_alerts \<lparr> threat_probabilities =
       [(202, [(''VBIED_DROPOFF'', 0.0027)]), (101, [(''VBIED_DROPOFF'', 0.999)]),
        (303, [(''VBIED_DROPOFF'', 0.9)]), (404, [(''VBIED_DROPOFF'', 0.999)])] \<rparr>
     = [\<lparr> alert_obj_id = 101, threat_type = ''VBIED_DROPOFF'', probability = 0.999 \<rparr>,
        \<lparr> alert_obj_id = 404, threat_type = ''VBIED_DROPOFF'', probability = 0.999 \<rparr>,
        \<lparr> alert_obj_id = 303, threat_type = ''VBIED_DROPOFF'', probability = 0.9 \<rparr>]
   \<and> distinct (get_prioritized_alerts \<lparr> threat_probabilities =
       [(202, [(''VBIED_DROPOFF'', 0.0027)]), (101, [(''VBIED_DROPOFF'', 0.999)]),
        (303, [(''VBIED_DROPOFF'', 0.9)]), (404, [(''VBIED_DROPOFF'', 0.999)])] \<rparr>)
   \<and> process_frame_data
        (ThreatDetector_init\<lparr>threat_synthesizer := \<lparr> threat_probabilities =
           [(202, [(''VBIED_DROPOFF'', 0.0027)]), (101, [(''VBIED_DROPOFF'', 0.999)]),
            (303, [(''VBIED_DROPOFF'', 0.9)]), (404, [(''VBIED_DROPOFF'', 0.999)])] \<rparr>\<rparr>)
        \<lparr> timestamp = 8, detections = [] \<rparr>
     = (Inr [\<lparr> alert_obj_id = 101, threat_type = ''VBIED_DROPOFF'', probability = 0.999 \<rparr>,
             \<lparr> alert_obj_id = 404, threat_type = ''VBIED_DROPOFF'', probability = 0.999 \<rparr>,
             \<lparr> alert_obj_id = 303, threat_type = ''VBIED_DROPOFF'', probability = 0.9 \<rparr>],
        ThreatDetector_init\<lparr>threat_synthesizer := \<lparr> threat_probabilities =
           [(202, [(''VBIED_DROPOFF'', 0.0027)]), (101, [(''VBIED_DROPOFF'', 0.999)]),
            (303, [(''VBIED_DROPOFF'', 0.9)]), (404, [(''VBIED_DROPOFF'', 0.999)])] \<rparr>\<rparr>)"
proof -
  let ?syn = "\<lparr> threat_probabilities =
       [(202, [(''VBIED_DROPOFF'', 0.0027)]), (101, [(''VBIED_DROPOFF'', 0.999)]),
        (303, [(''VBIED_DROPOFF'', 0.9)]), (404, [(''VBIED_DROPOFF'', 0.999)])] \<rparr>"
  have wf: "beliefs_well_formed ?syn" by (simp add: beliefs_well_formed_def)
  have ev: "get_prioritized_alerts ?syn
     = [\<lparr> alert_obj_id = 101, threat_type = ''VBIED_DROPOFF'', probability = 0.999 \<rparr>,
        \<lparr> alert_obj_id = 404, threat_type = ''VBIED_DROPOFF'', probability = 0.999 \<rparr>,
        \<lparr> alert_obj_id = 303, threat_type = ''VBIED_DROPOFF'', probability = 0.9 \<rparr>]"
    by (simp add: get_prioritized_alerts_def collect_alerts_def ALERT_PROBABILITY_THRESHOLD_def)
  have pf: "process_frame_data (ThreatDetector_init\<lparr>threat_synthesizer := ?syn\<rparr>) \<lparr> timestamp = 8, detections = [] \<rparr>
     = (Inr (get_prioritized_alerts ?syn), ThreatDetector_init\<lparr>threat_synthesizer := ?syn\<rparr>)"
    by (simp add: process_frame_data_def ThreatDetector_init_def)
  from alerts_exact_sorted_stable [OF wf] have "distinct (get_prioritized_alerts ?syn)" by blast
  with wf ev pf show ?thesis by simp
qed

subsection \<open>Scenario progress\<close>

lemma driver_exit_loop_effect:
  "driver_exit_loop eng vt vp others = (r, eng') \<Longrightarrow>
     (eng' = eng \<and> r \<noteq> Inr True)
     \<or> (r = Inr True \<and> (\<exists>sc l. active_scenarios eng (obj_id vt) = Some sc
            \<and> eng' = eng\<lparr>active_scenarios := (active_scenarios eng)(obj_id vt \<mapsto> sc\<lparr>linked_obj_id := Some l\<rparr>)\<rparr>))"
proof (induction others)
  case Nil
  then show ?case by auto
next
  case (Cons other rest)
  show ?case
  proof (cases "label other = ''pedestrian'' \<and> length (history other) = 1
                \<and> sqrt (real_of_int ((fst vp - fst (pos (last (history other))))\<^sup>2
                                     + (snd vp - snd (pos (last (history other))))\<^sup>2)) < 50")
    case True
    show ?thesis
    proof (cases "active_scenarios eng (obj_id vt)")
      case None
      then show ?thesis using Cons.prems True by (auto simp: Let_def)
    next
      case (Some sc)
      then have "r = Inr True"
        and "eng' = eng\<lparr>active_scenarios := (active_scenarios eng)
                            (obj_id vt \<mapsto> sc\<lparr>linked_obj_id := Some (obj_id other)\<rparr>)\<rparr>"
        using Cons.prems True by (simp_all add: Let_def)
      then show ?thesis using Some by blast
    qed
  next
    case False
    then have "driver_exit_loop eng vt vp rest = (r, eng')"
      using Cons.prems by (auto simp: Let_def split: if_splits)
    then show ?thesis by (rule Cons.IH)
  qed
qed

lemma check_driver_exit_effect:
  "check_driver_exit eng vt c = (r, eng') \<Longrightarrow>
     (eng' = eng \<and> r \<noteq> Inr True)
     \<or> (r = Inr True \<and> (\<exists>sc l. active_scenarios eng (obj_id vt) = Some sc
            \<and> eng' = eng\<lparr>active_scenarios := (active_scenarios eng)(obj_id vt \<mapsto> sc\<lparr>linked_obj_id := Some l\<rparr>)\<rparr>))"
  unfolding check_driver_exit_def
  by (cases "history vt = []") (auto dest: driver_exit_loop_effect)

lemma check_driver_separation_effect:
  "check_driver_separation eng vt c = (r, eng') \<Longrightarrow> eng' = eng"
  by (auto simp: check_driver_separation_def Let_def split: option.splits if_splits)

lemma start_scenarios_effect:
  "start_scenarios eng track load_playbooks =
     (if label track \<in> set [''van'', ''truck'', ''car'']
      then eng\<lparr>active_scenarios := (active_scenarios eng)
                 (obj_id track \<mapsto> \<lparr> playbook = ''VBIED_DROPOFF'', state_index = 0, linked_obj_id = None \<rparr>)\<rparr>
      else eng)"
  by (simp add: load_playbooks_def)

lemma playbook_lookup:
  "dict_index load_playbooks ''VBIED_DROPOFF'' = Inr pb \<Longrightarrow> length (triggers pb) = 3 \<and> length (states pb) = 4"
  by (auto simp: dict_index_def load_playbooks_def)

lemma triggers_VBIED:
  "dict_index load_playbooks ''VBIED_DROPOFF'' = Inr pb \<Longrightarrow>
     length (triggers pb) = 3 \<and> length (states pb) = 4
     \<and> triggers pb ! 0 = (\<lambda>eng track context. (Inr (is_stopped context \<and> anomaly_score context > ANOMALY_THRESHOLD), eng))
     \<and> triggers pb ! 1 = (\<lambda>eng track context. check_driver_exit eng track context)
     \<and> triggers pb ! 2 = (\<lambda>eng track context. check_driver_separation eng track context)"
  by (auto simp: dict_index_def load_playbooks_def)

lemma dict_index_VBIED: "\<exists>pb. dict_index load_playbooks ''VBIED_DROPOFF'' = Inr pb"
  by (simp add: dict_index_def load_playbooks_def)

lemma update_scenarios_cases:
  assumes res: "update_scenarios eng track c = (r, eng')"
    and eng1: "eng1 = (if active_scenarios eng (obj_id track) = None \<and> anomaly_score c > ANOMALY_THRESHOLD
                       then start_scenarios eng track load_playbooks else eng)"
    and sc: "active_scenarios eng1 (obj_id track) = Some sc"
    and pb: "playbook sc = ''VBIED_DROPOFF''"
  shows "eng' = eng1
         \<or> (\<exists>sc'. eng' = eng1\<lparr>active_scenarios := (active_scenarios eng1)(obj_id track \<mapsto> sc')\<rparr>
               \<and> playbook sc' = playbook sc \<and> state_index sc' = Suc (state_index sc)
               \<and> state_index sc < 3
               \<and> (linked_obj_id sc' = linked_obj_id sc \<or> (state_index sc = 1 \<and> linked_obj_id sc' \<noteq> None)))"
proof -
  obtain P where P: "dict_index load_playbooks ''VBIED_DROPOFF'' = Inr P"
    using dict_index_VBIED by blast
  note T = triggers_VBIED [OF P]
  have unf: "update_scenarios eng track c =
     (if state_index sc < 3 then
        (case (triggers P ! state_index sc) eng1 track c of
           (Inl e, eng2) \<Rightarrow> (Some e, eng2)
         | (Inr fired, eng2) \<Rightarrow>
             if fired then
               (case active_scenarios eng2 (obj_id track) of
                  None \<Rightarrow> (None, eng2)
                | Some sc2 \<Rightarrow>
                    let eng3 = eng2\<lparr>active_scenarios := (active_scenarios eng2)
                                      (obj_id track \<mapsto> sc2\<lparr>state_index := state_index sc2 + 1\<rparr>)\<rparr>
                    in if state_index sc2 + 1 < length (states P) then (None, eng3) else (Some IndexError, eng3))
             else (None, eng2))
      else (None, eng1))"
    using sc pb P T unfolding update_scenarios_def eng1 [symmetric] by (simp add: Let_def)
  consider "state_index sc = 0" | "state_index sc = 1" | "state_index sc = 2" | "3 \<le> state_index sc"
    by linarith
  then show ?thesis
  proof cases
    case 1
    then show ?thesis using res sc T unfolding unf
      by (auto simp: Let_def split: if_splits)
  next
    case 2
    obtain r0 eng2 where ce: "check_driver_exit eng1 track c = (r0, eng2)"
      by (cases "check_driver_exit eng1 track c")
    from check_driver_exit_effect [OF ce] show ?thesis
    proof
      assume "eng2 = eng1 \<and> r0 \<noteq> Inr True"
      then show ?thesis using res 2 T ce unfolding unf
        by (cases r0) (auto simp: Let_def split: if_splits)
    next
      assume "r0 = Inr True \<and> (\<exists>sc0 l. active_scenarios eng1 (obj_id track) = Some sc0
            \<and> eng2 = eng1\<lparr>active_scenarios := (active_scenarios eng1)(obj_id track \<mapsto> sc0\<lparr>linked_obj_id := Some l\<rparr>)\<rparr>)"
      then obtain l where r0: "r0 = Inr True"
        and e2: "eng2 = eng1\<lparr>active_scenarios := (active_scenarios eng1)(obj_id track \<mapsto> sc\<lparr>linked_obj_id := Some l\<rparr>)\<rparr>"
        using sc by auto
      have "eng' = eng1\<lparr>active_scenarios := (active_scenarios eng1)
                      (obj_id track \<mapsto> sc\<lparr>linked_obj_id := Some l, state_index := Suc (state_index sc)\<rparr>)\<rparr>"
        using res 2 T ce r0 e2 unfolding unf by (auto simp: Let_def)
      then show ?thesis using 2 by auto
    qed
  next
    case 3
    obtain r0 eng2 where ce: "check_driver_separation eng1 track c = (r0, eng2)"
      by (cases "check_driver_separation eng1 track c")
    have "eng2 = eng1" using check_driver_separation_effect [OF ce] .
    then show ?thesis using res 3 T ce sc unfolding unf
      by (cases r0) (auto simp: Let_def split: if_splits)
  next
    case 4
    then show ?thesis using res unfolding unf by simp
  qed
qed

lemma update_scenarios_step:
  assumes ok: "scenarios_ok eng" and res: "update_scenarios eng track c = (r, eng')"
  shows "scenarios_ok eng'
         \<and> (\<forall>oid sc. active_scenarios eng oid = Some sc \<longrightarrow>
               (\<exists>sc'. active_scenarios eng' oid = Some sc' \<and> playbook sc' = playbook sc
                   \<and> state_index sc \<le> state_index sc' \<and> state_index sc' \<le> Suc (state_index sc)
                   \<and> (linked_obj_id sc' = linked_obj_id sc
                        \<or> (linked_obj_id sc = None \<and> state_index sc = 1 \<and> state_index sc' = 2))))"
proof -
  define eng1 where "eng1 = (if active_scenarios eng (obj_id track) = None \<and> anomaly_score c > ANOMALY_THRESHOLD
                       then start_scenarios eng track load_playbooks else eng)"
  have ok1: "scenarios_ok eng1"
    using ok by (auto simp: eng1_def start_scenarios_effect scenarios_ok_def)
  have keep1: "active_scenarios eng1 oid = Some sc" if "active_scenarios eng oid = Some sc" for oid sc
    using that by (auto simp: eng1_def start_scenarios_effect)
  have rel: "scenarios_ok eng'
         \<and> (\<forall>oid sc. active_scenarios eng1 oid = Some sc \<longrightarrow>
               (\<exists>sc'. active_scenarios eng' oid = Some sc' \<and> playbook sc' = playbook sc
                   \<and> state_index sc \<le> state_index sc' \<and> state_index sc' \<le> Suc (state_index sc)
                   \<and> (linked_obj_id sc' = linked_obj_id sc
                        \<or> (linked_obj_id sc = None \<and> state_index sc = 1 \<and> state_index sc' = 2))))"
  proof (cases "active_scenarios eng1 (obj_id track)")
    case None
    then have "eng' = eng1" using res unfolding update_scenarios_def eng1_def [symmetric]
      by (simp add: Let_def)
    then show ?thesis using ok1 by auto
  next
    case (Some sc1)
    then have pb: "playbook sc1 = ''VBIED_DROPOFF''" and le: "state_index sc1 \<le> 3"
      and lk: "linked_obj_id sc1 \<noteq> None \<longrightarrow> 2 \<le> state_index sc1"
      using ok1 by (auto simp: scenarios_ok_def)
    from update_scenarios_cases [OF res eng1_def Some pb]
    show ?thesis
    proof
      assume "eng' = eng1"
      then show ?thesis using ok1 by auto
    next
      assume "\<exists>sc'. eng' = eng1\<lparr>active_scenarios := (active_scenarios eng1)(obj_id track \<mapsto> sc')\<rparr>
               \<and> playbook sc' = playbook sc1 \<and> state_index sc' = Suc (state_index sc1)
               \<and> state_index sc1 < 3
               \<and> (linked_obj_id sc' = linked_obj_id sc1 \<or> (state_index sc1 = 1 \<and> linked_obj_id sc' \<noteq> None))"
      then obtain sc' where e': "eng' = eng1\<lparr>active_scenarios := (active_scenarios eng1)(obj_id track \<mapsto> sc')\<rparr>"
        and p': "playbook sc' = playbook sc1" and i': "state_index sc' = Suc (state_index sc1)"
        and lt: "state_index sc1 < 3"
        and l': "linked_obj_id sc' = linked_obj_id sc1 \<or> (state_index sc1 = 1 \<and> linked_obj_id sc' \<noteq> None)"
        by blast
      have okn: "scenarios_ok eng'"
        using ok1 e' p' i' lt l' pb lk unfolding scenarios_ok_def by auto
      have "\<exists>sc''. active_scenarios eng' oid = Some sc'' \<and> playbook sc'' = playbook sc
                   \<and> state_index sc \<le> state_index sc'' \<and> state_index sc'' \<le> Suc (state_index sc)
                   \<and> (linked_obj_id sc'' = linked_obj_id sc
                        \<or> (linked_obj_id sc = None \<and> state_index sc = 1 \<and> state_index sc'' = 2))"
        if a: "active_scenarios eng1 oid = Some sc" for oid sc
      proof (cases "oid = obj_id track")
        case False
        then show ?thesis using a e' by simp
      next
        case True
        then have "sc = sc1" using a Some by simp
        then show ?thesis using True e' p' i' l' lk by auto
      qed
      with okn show ?thesis by blast
    qed
  qed
  show ?thesis using rel keep1 by blast
qed

lemma scenarios_ok_init: "scenarios_ok BehavioralEngine_init"
  by (simp add: scenarios_ok_def BehavioralEngine_init_def)

lemma scenarios_ok_update_all:
  "scenarios_ok eng \<Longrightarrow> scenarios_ok (update_scenarios_all eng calls)"
proof (induction eng calls rule: update_scenarios_all.induct)
  case (1 eng)
  then show ?case by simp
next
  case (2 eng track c calls)
  obtain r eng' where "update_scenarios eng track c = (r, eng')"
    by (cases "update_scenarios eng track c")
  with 2 update_scenarios_step [OF "2.prems" this] show ?case by simp
qed

lemma sqrt_less_iff_sq: "0 < b \<Longrightarrow> sqrt a < b \<longleftrightarrow> a < b\<^sup>2"
proof -
  assume b: "0 < b"
  have "sqrt a < b \<longleftrightarrow> sqrt a < sqrt (b\<^sup>2)" using b by simp
  also have "\<dots> \<longleftrightarrow> a < b\<^sup>2" by (rule real_sqrt_less_iff)
  finally show ?thesis .
qed

lemmas sample_defs = stopped_van_def new_pedestrian_def van_alone_def van_with_pedestrian_def

lemmas engine_eval = update_scenarios_def load_playbooks_def dict_index_def
  BehavioralEngine_init_def ANOMALY_THRESHOLD_def Let_def check_driver_exit_def
  check_driver_separation_def sqrt_less_iff_sq

lemma van_reaches_state_1:
  "active_scenarios (update_scenarios_all BehavioralEngine_init [(stopped_van, van_alone)]) 101
     = Some \<lparr> playbook = ''VBIED_DROPOFF'', state_index = 1, linked_obj_id = None \<rparr>"
  by (simp add: engine_eval sample_defs)

lemma van_reaches_state_2:
  "active_scenarios (update_scenarios_all BehavioralEngine_init
       [(stopped_van, van_alone), (stopped_van, van_with_pedestrian 202 (460, 370))]) 101
     = Some \<lparr> playbook = ''VBIED_DROPOFF'', state_index = 2, linked_obj_id = Some 202 \<rparr>"
  by (simp add: engine_eval sample_defs)

text \<open>
  C4. After any sequence of \<open>update_scenarios\<close> calls on a fresh engine, one more call
  (for any track and context, whether it returns or raises) keeps every active
  scenario, with the same playbook, and leaves its \<open>state_index\<close> unchanged or
  increased by exactly one; before and after, the index is at most the number of
  triggers of the scenario's playbook.
\<close>

theorem state_index_monotone_bounded:
  assumes "active_scenarios (update_scenarios_all BehavioralEngine_init calls) oid = Some sc"
  shows "\<exists>sc' pb. active_scenarios
                     (snd (update_scenarios (update_scenarios_all BehavioralEngine_init calls) track c)) oid
                   = Some sc'
           \<and> state_index sc \<le> state_index sc' \<and> state_index sc' \<le> state_index sc + 1
           \<and> playbook sc' = playbook sc
           \<and> dict_index load_playbooks (playbook sc) = Inr pb
           \<and> state_index sc \<le> length (triggers pb) \<and> state_index sc' \<le> length (triggers pb)"
proof -
  let ?E = "update_scenarios_all BehavioralEngine_init calls"
  have ok: "scenarios_ok ?E" by (rule scenarios_ok_update_all [OF scenarios_ok_init])
  obtain r eng' where res: "update_scenarios ?E track c = (r, eng')"
    by (cases "update_scenarios ?E track c")
  from update_scenarios_step [OF ok res] assms
  obtain sc' where sc': "active_scenarios eng' oid = Some sc'" "playbook sc' = playbook sc"
    "state_index sc \<le> state_index sc'" "state_index sc' \<le> Suc (state_index sc)"
    and ok': "scenarios_ok eng'"
    by blast
  obtain pb where pb: "dict_index load_playbooks ''VBIED_DROPOFF'' = Inr pb"
    using dict_index_VBIED by blast
  have "playbook sc = ''VBIED_DROPOFF''" "state_index sc \<le> 3"
    using ok assms by (auto simp: scenarios_ok_def)
  moreover have "state_index sc' \<le> 3" using ok' sc'(1) by (auto simp: scenarios_ok_def)
  moreover have "length (triggers pb) = 3" using triggers_VBIED [OF pb] by simp
  ultimately show ?thesis using sc' pb res by auto
qed

theorem state_index_monotone_bounded_witness:
  "active_scenarios (update_scenarios_all BehavioralEngine_init [(stopped_van, van_alone)]) 101
     = Some \<lparr> playbook = ''VBIED_DROPOFF'', state_index = 1, linked_obj_id = None \<rparr>
   \<and> (\<exists>sc'. active_scenarios
               (snd (update_scenarios (update_scenarios_all BehavioralEngine_init [(stopped_van, van_alone)])
                       stopped_van (van_with_pedestrian 202 (460, 370)))) 101 = Some sc'
            \<and> 1 \<le> state_index sc' \<and> state_index sc' \<le> 2 \<and> state_index sc' \<le> 3)"
proof -
  from state_index_monotone_bounded [OF van_reaches_state_1, of stopped_van "van_with_pedestrian 202 (460, 370)"]
  obtain sc' pb where
    "active_scenarios
       (snd (update_scenarios (update_scenarios_all BehavioralEngine_init [(stopped_van, van_alone)])
               stopped_van (van_with_pedestrian 202 (460, 370)))) 101 = Some sc'"
    "1 \<le> state_index sc'" "state_index sc' \<le> 2"
    by auto
  with van_reaches_state_1 show ?thesis by auto
qed

text \<open>
  C7. After any sequence of \<open>update_scenarios\<close> calls on a fresh engine, one more call
  leaves a link that is set unchanged; \<open>linked_obj_id\<close> changes only from unset to set,
  and only in the step that takes the scenario from index 1 to index 2 (the first
  successful driver-exit evaluation). A scenario with a link is at index 2 or above, so
  it never evaluates the driver-exit trigger again: the link is written at most once.
\<close>

theorem linked_object_written_once:
  assumes "active_scenarios (update_scenarios_all BehavioralEngine_init calls) oid = Some sc"
  shows "\<exists>sc'. active_scenarios
                  (snd (update_scenarios (update_scenarios_all BehavioralEngine_init calls) track c)) oid
                = Some sc'
           \<and> (linked_obj_id sc \<noteq> None \<longrightarrow> linked_obj_id sc' = linked_obj_id sc)
           \<and> (linked_obj_id sc' \<noteq> linked_obj_id sc \<longrightarrow>
                 linked_obj_id sc = None \<and> state_index sc = 1 \<and> state_index sc' = 2)
           \<and> (linked_obj_id sc \<noteq> None \<longrightarrow> 2 \<le> state_index sc \<and> 2 \<le> state_index sc')"
proof -
  let ?E = "update_scenarios_all BehavioralEngine_init calls"
  have ok: "scenarios_ok ?E" by (rule scenarios_ok_update_all [OF scenarios_ok_init])
  obtain r eng' where res: "update_scenarios ?E track c = (r, eng')"
    by (cases "update_scenarios ?E track c")
  from update_scenarios_step [OF ok res] assms
  obtain sc' where sc': "active_scenarios eng' oid = Some sc'"
    "state_index sc \<le> state_index sc'"
    "linked_obj_id sc' = linked_obj_id sc
       \<or> (linked_obj_id sc = None \<and> state_index sc = 1 \<and> state_index sc' = 2)"
    by blast
  have "linked_obj_id sc \<noteq> None \<longrightarrow> 2 \<le> state_index sc"
    using ok assms by (auto simp: scenarios_ok_def)
  then show ?thesis using sc' res by auto
qed

theorem linked_object_written_once_witness:
  "active_scenarios (update_scenarios_all BehavioralEngine_init
       [(stopped_van, van_alone), (stopped_van, van_with_pedestrian 202 (460, 370))]) 101
     = Some \<lparr> playbook = ''VBIED_DROPOFF'', state_index = 2, linked_obj_id = Some 202 \<rparr>
   \<and> (\<exists>sc'. active_scenarios
               (snd (update_scenarios
                       (update_scenarios_all BehavioralEngine_init
                          [(stopped_van, van_alone), (stopped_van, van_with_pedestrian 202 (460, 370))])
                       stopped_van (van_with_pedestrian 303 (440, 375)))) 101 = Some sc'
            \<and> linked_obj_id sc' = Some 202)"
proof -
  from linked_object_written_once [OF van_reaches_state_2, of stopped_van "van_with_pedestrian 303 (440, 375)"]
  obtain sc' where
    "active_scenarios
       (snd (update_scenarios
               (update_scenarios_all BehavioralEngine_init
                  [(stopped_van, van_alone), (stopped_van, van_with_pedestrian 202 (460, 370))])
               stopped_van (van_with_pedestrian 303 (440, 375)))) 101 = Some sc'"
    "linked_obj_id sc' = Some 202"
    by auto
  with van_reaches_state_2 show ?thesis by auto
qed

subsection \<open>Frames\<close>

lemma tracks_ok_update:
  assumes "tracks_ok trs" and "obj_id t = k"
  shows "tracks_ok (AList.update k t trs)"
  using assms set_update_subset [of k t trs]
  by (auto simp: tracks_ok_iff distinct_update)

lemma update_tracks_ok:
  "tracks_ok tr \<Longrightarrow> update_tracks tr dets now = (r, tr') \<Longrightarrow> tracks_ok tr'"
proof (induction tr dets now rule: update_tracks.induct)
  case (1 tr current_time)
  then show ?case by simp
next
  case (2 tr det rest current_time)
  show ?case
  proof (cases "det_obj_id det")
    case None
    then show ?thesis using "2.prems" by simp
  next
    case (Some oid)
    show ?thesis
    proof (cases "det_bbox det")
      case None
      then show ?thesis using "2.prems" Some by simp
    next
      case (Some bbox)
      define tr1c where "tr1c = (if map_of tr oid = None
                      then (case det_label det of
                              None \<Rightarrow> Inl KeyError
                            | Some l \<Rightarrow>
                                Inr (AList.update oid
                                       \<lparr> obj_id = oid, label = l, history = [], last_updated = None \<rparr> tr))
                      else Inr tr)"
      show ?thesis
      proof (cases tr1c)
        case (Inl e)
        then show ?thesis using "2.prems" \<open>det_obj_id det = Some oid\<close> Some
          by (simp add: tr1c_def [symmetric])
      next
        case (Inr tr1)
        have ok1: "tracks_ok tr1"
          using Inr "2.prems"(1) unfolding tr1c_def
          by (auto split: if_splits option.splits intro!: tracks_ok_update)
        show ?thesis
        proof (cases "map_of tr1 oid")
          case None
          then show ?thesis using "2.prems" \<open>det_obj_id det = Some oid\<close> Some Inr ok1
            by (simp add: tr1c_def [symmetric])
        next
          case (Some t)
          have kt: "obj_id t = oid" using ok1 Some by (auto simp: tracks_ok_iff dest: map_of_SomeD)
          let ?t' = "t\<lparr>history := history t @ [\<lparr> pos = get_center bbox, time = current_time \<rparr>],
                        last_updated := Some current_time\<rparr>"
          have ok2: "tracks_ok (AList.update oid ?t' tr1)"
            by (rule tracks_ok_update [OF ok1]) (simp add: kt)
          have rec: "update_tracks (AList.update oid ?t' tr1) rest current_time = (r, tr')"
            using "2.prems"(2) \<open>det_obj_id det = Some oid\<close> \<open>det_bbox det = Some bbox\<close> Inr Some
            by (simp add: tr1c_def [symmetric] Let_def)
          show ?thesis
            using "2.IH" [OF \<open>det_obj_id det = Some oid\<close> \<open>det_bbox det = Some bbox\<close> refl
                            Inr [unfolded tr1c_def] Some ok2 rec] .
        qed
      qed
    qed
  qed
qed

lemma less_sqrt_iff_sq: "0 \<le> b \<Longrightarrow> b < sqrt a \<longleftrightarrow> b\<^sup>2 < a"
proof -
  assume b: "0 \<le> b"
  have "b < sqrt a \<longleftrightarrow> sqrt (b\<^sup>2) < sqrt a" using b by simp
  also have "\<dots> \<longleftrightarrow> b\<^sup>2 < a" by (rule real_sqrt_less_iff)
  finally show ?thesis .
qed

lemmas frame_eval = process_frame_data_def process_object_def update_scenarios_def load_playbooks_def
  dict_index_def ANOMALY_THRESHOLD_def STOP_SPEED_THRESHOLD_MPS_def PIXELS_TO_METERS_def
  ALERT_PROBABILITY_THRESHOLD_def Let_def check_driver_exit_def
  check_driver_separation_def sqrt_less_iff_sq less_sqrt_iff_sq get_center_def calculate_speed_mps_def py_truediv_def
  calculate_anomaly_score_def in_road_closed_form in_stop_closed_form get_matched_playbook_info_def
  update_threat_probabilities_def belief_multiplier_def likelihoods_def normalize_probabilities_def
  get_prioritized_alerts_def collect_alerts_def

lemma sqrt_10000: "sqrt 10000 = 100"
proof -
  have "sqrt ((100::real)\<^sup>2) = 100" by simp
  then show ?thesis by simp
qed

text \<open>
  C1. On the reference feed the run returns without raising; the alert list of the
  frame at t=7 (and of every frame from t=4 on) is exactly the pair
  \<open>(101, VBIED_DROPOFF)\<close> with belief 0.999, above the 0.75 alert threshold, and the
  scenario of 101 has reached \<open>SEPARATION\<close> with pedestrian 202 linked.
\<close>

theorem reference_walkthrough_alerts:
  "fst (run_frames ThreatDetector_init simulation_api_feed)
     = [[], [], [],
        [\<lparr> alert_obj_id = 101, threat_type = ''VBIED_DROPOFF'', probability = 0.999 \<rparr>],
        [\<lparr> alert_obj_id = 101, threat_type = ''VBIED_DROPOFF'', probability = 0.999 \<rparr>],
        [\<lparr> alert_obj_id = 101, threat_type = ''VBIED_DROPOFF'', probability = 0.999 \<rparr>],
        [\<lparr> alert_obj_id = 101, threat_type = ''VBIED_DROPOFF'', probability = 0.999 \<rparr>]]
   \<and> fst (snd (run_frames ThreatDetector_init simulation_api_feed)) = None
   \<and> belief (threat_synthesizer (snd (snd (run_frames ThreatDetector_init simulation_api_feed))))
        101 ''VBIED_DROPOFF'' = Some 0.999
   \<and> (0.999 :: real) > ALERT_PROBABILITY_THRESHOLD
   \<and> active_scenarios (behavioral_engine (snd (snd (run_frames ThreatDetector_init simulation_api_feed)))) 101
       = Some \<lparr> playbook = ''VBIED_DROPOFF'', state_index = 3, linked_obj_id = Some 202 \<rparr>"
  by (simp add: simulation_api_feed_def ThreatDetector_init_def frame_eval belief_def
        BehavioralEngine_init_def ThreatSynthesizer_init_def)

text \<open>
  C2 does not hold of the program. Car 8 of \<open>road_feed\<close> stays on the normal road, moves
  at 10 m/s in every frame after its first, and no pedestrian is ever tracked; yet the
  frame at t=4 returns the alert \<open>(8, VBIED_DROPOFF, 0.999)\<close>. On its first observation
  the track has one sample, so its speed is 0 and it counts as stopped; being outside
  the normal-stopping polygon it is scored 0.95 and its scenario advances to
  \<open>STOPPED_IN_ANOMALOUS_ZONE\<close> at once. Every later frame multiplies its belief by 10.
\<close>

theorem moving_car_is_alerted:
  "fst (run_frames ThreatDetector_init road_feed)
     = [[], [], [], [\<lparr> alert_obj_id = 8, threat_type = ''VBIED_DROPOFF'', probability = 0.999 \<rparr>]]
   \<and> fst (snd (run_frames ThreatDetector_init road_feed)) = None
   \<and> tracked_objects (snd (snd (run_frames ThreatDetector_init road_feed)))
       = [(8, \<lparr> obj_id = 8, label = ''car'',
                 history = [\<lparr> pos = (130, 265), time = 1 \<rparr>, \<lparr> pos = (230, 265), time = 2 \<rparr>,
                            \<lparr> pos = (330, 265), time = 3 \<rparr>, \<lparr> pos = (430, 265), time = 4 \<rparr>],
                 last_updated = Some 4 \<rparr>)]
   \<and> is_point_in_polygon (130, 265) (normal_road_polygon BaselineModel_init) = Inr True
   \<and> is_point_in_polygon (230, 265) (normal_road_polygon BaselineModel_init) = Inr True
   \<and> is_point_in_polygon (330, 265) (normal_road_polygon BaselineModel_init) = Inr True
   \<and> is_point_in_polygon (430, 265) (normal_road_polygon BaselineModel_init) = Inr True
   \<and> map_option calculate_speed_mps
        (map_of (tracked_objects (snd (snd (run_frames ThreatDetector_init (take 1 road_feed))))) 8)
       = Some (Inr 0)
   \<and> map_option calculate_speed_mps
        (map_of (tracked_objects (snd (snd (run_frames ThreatDetector_init (take 2 road_feed))))) 8)
       = Some (Inr 10)
   \<and> map_option calculate_speed_mps
        (map_of (tracked_objects (snd (snd (run_frames ThreatDetector_init (take 3 road_feed))))) 8)
       = Some (Inr 10)
   \<and> map_option calculate_speed_mps
        (map_of (tracked_objects (snd (snd (run_frames ThreatDetector_init (take 4 road_feed))))) 8)
       = Some (Inr 10)
   \<and> active_scenarios
        (behavioral_engine (snd (snd (run_frames ThreatDetector_init (take 1 road_feed))))) 8
       = Some \<lparr> playbook = ''VBIED_DROPOFF'', state_index = 1, linked_obj_id = None \<rparr>
   \<and> belief (threat_synthesizer (snd (snd (run_frames ThreatDetector_init road_feed))))
        8 ''VBIED_DROPOFF'' = Some 0.999"
  by (simp add: road_feed_def ThreatDetector_init_def frame_eval belief_def sqrt_10000
        BehavioralEngine_init_def ThreatSynthesizer_init_def)

subsection \<open>Malformed detections\<close>

lemma update_tracks_malformed:
  "malformed tr bad \<Longrightarrow> update_tracks tr (bad # post) now = (Some KeyError, tr)"
  by (auto simp: malformed_def split: option.splits)

lemma update_tracks_append:
  "update_tracks tr (pre @ rest) now =
     (case update_tracks tr pre now of
        (Some e, tr') \<Rightarrow> (Some e, tr')
      | (None, tr') \<Rightarrow> update_tracks tr' rest now)"
proof (induction tr pre now rule: update_tracks.induct)
  case (1 tr current_time)
  show ?case by simp
next
  case (2 tr det pre current_time)
  show ?case
  proof (cases "det_obj_id det")
    case None
    then show ?thesis by simp
  next
    case (Some oid)
    show ?thesis
    proof (cases "det_bbox det")
      case None
      then show ?thesis using Some by simp
    next
      case (Some bbox)
      define tr1c where "tr1c = (if map_of tr oid = None
                      then (case det_label det of
                              None \<Rightarrow> Inl KeyError
                            | Some l \<Rightarrow>
                                Inr (AList.update oid
                                       \<lparr> obj_id = oid, label = l, history = [], last_updated = None \<rparr> tr))
                      else Inr tr)"
      show ?thesis
      proof (cases tr1c)
        case (Inl e)
        then show ?thesis using \<open>det_obj_id det = Some oid\<close> Some
          by (simp add: tr1c_def [symmetric])
      next
        case (Inr tr1)
        show ?thesis
        proof (cases "map_of tr1 oid")
          case None
          then show ?thesis using \<open>det_obj_id det = Some oid\<close> Some Inr
            by (simp add: tr1c_def [symmetric])
        next
          case (Some t)
          show ?thesis
            using "2.IH" [OF \<open>det_obj_id det = Some oid\<close> \<open>det_bbox det = Some bbox\<close> refl
                            Inr [unfolded tr1c_def] Some]
                  \<open>det_obj_id det = Some oid\<close> \<open>det_bbox det = Some bbox\<close> Inr Some
            by (simp add: tr1c_def [symmetric] Let_def)
        qed
      qed
    qed
  qed
qed

text \<open>
  C9, as the program behaves. A malformed detection makes \<open>process_frame_data\<close> raise
  KeyError at that detection: the detections before it in the frame are recorded in the
  track store, the offending detection and every later detection of the frame are not,
  no scenario or belief is updated for the frame, and the store stays a well-formed
  dict.
\<close>

theorem malformed_detection_aborts_frame:
  assumes "detections f = pre @ bad # post"
    and "update_tracks (tracked_objects det) pre (timestamp f) = (None, trs)"
    and "malformed trs bad"
  shows "process_frame_data det f = (Inl KeyError, det\<lparr>tracked_objects := trs\<rparr>)
         \<and> (tracks_ok (tracked_objects det) \<longrightarrow> tracks_ok trs)"
proof -
  have bad: "update_tracks trs (bad # post) (timestamp f) = (Some KeyError, trs)"
    by (rule update_tracks_malformed [OF assms(3)])
  have "update_tracks (tracked_objects det) (detections f) (timestamp f) = (Some KeyError, trs)"
    unfolding assms(1) update_tracks_append assms(2) using bad by simp
  then have "process_frame_data det f = (Inl KeyError, det\<lparr>tracked_objects := trs\<rparr>)"
    by (simp add: process_frame_data_def Let_def)
  then show ?thesis using update_tracks_ok [OF _ assms(2)] by blast
qed

theorem malformed_detection_aborts_frame_witness:
  "update_tracks (tracked_objects ThreatDetector_init)
     [\<lparr> det_obj_id = Some 101, det_label = Some ''van'', det_bbox = Some (100, 240, 60, 50) \<rparr>] 1
     = (None, [(101, \<lparr> obj_id = 101, label = ''van'', history = [\<lparr> pos = (130, 265), time = 1 \<rparr>],
                         last_updated = Some 1 \<rparr>)])
   \<and> malformed [(101, \<lparr> obj_id = 101, label = ''van'', history = [\<lparr> pos = (130, 265), time = 1 \<rparr>],
                          last_updated = Some 1 \<rparr>)]
        \<lparr> det_obj_id = Some 202, det_label = None, det_bbox = Some (450, 350, 20, 40) \<rparr>
   \<and> process_frame_data ThreatDetector_init
        \<lparr> timestamp = 1,
          detections =
            [\<lparr> det_obj_id = Some 101, det_label = Some ''van'', det_bbox = Some (100, 240, 60, 50) \<rparr>,
             \<lparr> det_obj_id = Some 202, det_label = None, det_bbox = Some (450, 350, 20, 40) \<rparr>,
             \<lparr> det_obj_id = Some 303, det_label = Some ''car'', det_bbox = Some (10, 240, 60, 50) \<rparr>] \<rparr>
       = (Inl KeyError,
          ThreatDetector_init\<lparr>tracked_objects :=
            [(101, \<lparr> obj_id = 101, label = ''van'', history = [\<lparr> pos = (130, 265), time = 1 \<rparr>],
                     last_updated = Some 1 \<rparr>)]\<rparr>)
   \<and> tracks_ok [(101, \<lparr> obj_id = 101, label = ''van'', history = [\<lparr> pos = (130, 265), time = 1 \<rparr>],
                          last_updated = Some 1 \<rparr>)]"
proof -
  let ?good = "\<lparr> det_obj_id = Some 101, det_label = Some ''van'', det_bbox = Some (100, 240, 60, 50) \<rparr>"
  let ?bad = "\<lparr> det_obj_id = Some 202, det_label = None, det_bbox = Some (450, 350, 20, 40) \<rparr>"
  let ?late = "\<lparr> det_obj_id = Some 303, det_label = Some ''car'', det_bbox = Some (10, 240, 60, 50) \<rparr>"
  let ?trs = "[(101, \<lparr> obj_id = 101, label = ''van'', history = [\<lparr> pos = (130, 265), time = 1 \<rparr>],
                       last_updated = Some 1 \<rparr>)]"
  let ?f = "\<lparr> timestamp = 1, detections = [?good, ?bad, ?late] \<rparr>"
  have h1: "detections ?f = [?good] @ ?bad # [?late]" by simp
  have h2: "update_tracks (tracked_objects ThreatDetector_init) [?good] (timestamp ?f) = (None, ?trs)"
    by (simp add: ThreatDetector_init_def get_center_def)
  have h3: "malformed ?trs ?bad" by (simp add: malformed_def)
  have h4: "tracks_ok (tracked_objects ThreatDetector_init)"
    by (simp add: tracks_ok_iff ThreatDetector_init_def)
  from malformed_detection_aborts_frame [OF h1 h2 h3] h2 h3 h4
  show ?thesis by simp
qed

text \<open>
  C9, as stated, fails: after a detection without \<open>obj_id\<close> the well-formed detection of
  pedestrian 202 in the same frame is not processed; the call raises and 202 is not
  tracked.
\<close>

theorem malformed_detection_counterexample:
  "process_frame_data ThreatDetector_init
     \<lparr> timestamp = 1,
       detections =
         [\<lparr> det_obj_id = None, det_label = Some ''van'', det_bbox = Some (100, 240, 60, 50) \<rparr>,
          \<lparr> det_obj_id = Some 202, det_label = Some ''pedestrian'', det_bbox = Some (450, 350, 20, 40) \<rparr>] \<rparr>
   = (Inl KeyError, ThreatDetector_init)
   \<and> map_of (tracked_objects (snd (process_frame_data ThreatDetector_init
       \<lparr> timestamp = 1,
         detections =
           [\<lparr> det_obj_id = None, det_label = Some ''van'', det_bbox = Some (100, 240, 60, 50) \<rparr>,
            \<lparr> det_obj_id = Some 202, det_label = Some ''pedestrian'', det_bbox = Some (450, 350, 20, 40) \<rparr>] \<rparr>)))
       202 = None"
  by (simp add: process_frame_data_def ThreatDetector_init_def)

end
